theory Spec2Isabelle
  imports Complex_Main
begin

section \<open>Python values and errors\<close>

text \<open>
  The values a radio button can carry (\<open>str | int | float\<close>). A Python \<open>int\<close> is
  unbounded; a finite \<open>float\<close> is represented by the rational number it denotes, which is
  all that Python's \<open>==\<close> between numbers looks at (\<open>1 == 1.0\<close>). NaN and the infinities
  are outside this type.
\<close>

datatype scalar = PyStr string | PyInt int | PyFloat rat

text \<open>Python's \<open>==\<close> on these values: numbers compare by value, a string only equals a string.\<close>

fun py_eq :: "scalar \<Rightarrow> scalar \<Rightarrow> bool" where
  "py_eq (PyStr a) (PyStr b) = (a = b)"
| "py_eq (PyInt a) (PyInt b) = (a = b)"
| "py_eq (PyFloat a) (PyFloat b) = (a = b)"
| "py_eq (PyInt a) (PyFloat b) = (of_int a = b)"
| "py_eq (PyFloat a) (PyInt b) = (a = of_int b)"
| "py_eq _ _ = False"

text \<open>Exceptions are values; each carries its message.\<close>

datatype error = ValueError string | AttributeError string | Raised string

text \<open>\<open>x in xs\<close> and \<open>xs.index(x)\<close> of a Python list, both by \<open>==\<close>, left to right.\<close>

fun py_in :: "scalar \<Rightarrow> scalar list \<Rightarrow> bool" where
  "py_in x [] = False"
| "py_in x (y # ys) = (if py_eq y x then True else py_in x ys)"

fun py_index :: "scalar list \<Rightarrow> scalar \<Rightarrow> error + nat" where
  "py_index [] x = Inl (ValueError ''x is not in list'')"
| "py_index (y # ys) x =
     (if py_eq y x then Inr 0
      else case py_index ys x of Inl e \<Rightarrow> Inl e | Inr i \<Rightarrow> Inr (Suc i))"

text \<open>\<open>str(c)\<close>: decimal digits for an \<open>int\<close>; the rendering of a float is a parameter.\<close>

fun str_nat :: "nat \<Rightarrow> string" where
  "str_nat n = (if n < 10 then [''0123456789'' ! n]
                else str_nat (n div 10) @ [''0123456789'' ! (n mod 10)])"

definition str_int :: "int \<Rightarrow> string" where
  "str_int i = (if i < 0 then ''-'' @ str_nat (nat (- i)) else str_nat (nat i))"

fun py_str :: "(rat \<Rightarrow> string) \<Rightarrow> scalar \<Rightarrow> string" where
  "py_str repr_float (PyStr s) = s"
| "py_str repr_float (PyInt i) = str_int i"
| "py_str repr_float (PyFloat q) = repr_float q"

section \<open>The radio component (gradio/components/radio.py)\<close>

text \<open>A configured choice: a bare value, or a \<open>(name, value)\<close> tuple.\<close>

datatype choice = Bare scalar | Tuple string scalar

text \<open>
  The fields \<open>Radio.__init__\<close> sets itself, and \<open>base\<close>: what the base-class constructor
  (\<open>super().__init__\<close>, in gradio.components.base) makes of the remaining keyword arguments.
\<close>

record 'b radio =
  choices :: "(string \<times> scalar) list"
  type :: string
  base :: 'b

definition valid_types :: "string list" where
  "valid_types = [''value'', ''index'']"

text \<open>\<open>str\<close> of a list of strings, as the f-string prints \<open>valid_types\<close>.\<close>

definition repr_str :: "string \<Rightarrow> string" where
  "repr_str s = [CHR 0x27] @ s @ [CHR 0x27]"

fun join :: "string \<Rightarrow> string list \<Rightarrow> string" where
  "join sep [] = []"
| "join sep [s] = s"
| "join sep (s # t # ts) = s @ sep @ join sep (t # ts)"

definition str_list :: "string list \<Rightarrow> string" where
  "str_list xs = ''['' @ join '', '' (map repr_str xs) @ '']''"

definition normalize_choices :: "(rat \<Rightarrow> string) \<Rightarrow> choice list option \<Rightarrow> (string \<times> scalar) list" where
  "normalize_choices repr_float cs =
     (case cs of
        None \<Rightarrow> []
      | Some l \<Rightarrow> map (\<lambda>c. case c of Tuple n v \<Rightarrow> (n, v) | Bare v \<Rightarrow> (py_str repr_float v, v)) l)"

text \<open>
  \<open>Radio.__init__\<close>. The base-class constructor is not part of this file of the source; it is
  the parameter \<open>super_init\<close>, called last with the remaining keyword arguments \<open>kw\<close>, and it
  may raise.
\<close>

definition Radio_init ::
  "(rat \<Rightarrow> string) \<Rightarrow> ('k \<Rightarrow> error + 'b) \<Rightarrow> choice list option \<Rightarrow> string \<Rightarrow> 'k \<Rightarrow> error + 'b radio" where
  "Radio_init repr_float super_init cs ty kw =
     (let chs = normalize_choices repr_float cs in
      if ty \<notin> set valid_types then
        Inl (ValueError (''Invalid value for parameter `type`: '' @ ty
                         @ ''. Please choose from one of: '' @ str_list valid_types))
      else case super_init kw of
             Inl e \<Rightarrow> Inl e
           | Inr b \<Rightarrow> Inr \<lparr>choices = chs, type = ty, base = b\<rparr>)"

definition example_inputs :: "'b radio \<Rightarrow> scalar option" where
  "example_inputs r = (case choices r of [] \<Rightarrow> None | c # _ \<Rightarrow> Some (snd c))"

text \<open>
  \<open>Radio.preprocess\<close>. The argument and the result are \<open>None\<close> or a value; a position is
  returned as the Python \<open>int\<close> it is.
\<close>

definition preprocess :: "'b radio \<Rightarrow> scalar option \<Rightarrow> error + scalar option" where
  "preprocess r x =
     (if type r = ''value'' then Inr x
      else if type r = ''index'' then
        (case x of
           None \<Rightarrow> Inr None
         | Some v \<Rightarrow>
             (let choice_values = map snd (choices r) in
              if py_in v choice_values
              then (case py_index choice_values v of
                      Inl e \<Rightarrow> Inl e
                    | Inr i \<Rightarrow> Inr (Some (PyInt (int i))))
              else Inr None))
      else Inl (ValueError (''Unknown type: '' @ type r
                            @ ''. Please choose from: '' @ repr_str ''value'' @ '', ''
                            @ repr_str ''index'' @ ''.'')))"

definition postprocess :: "'b radio \<Rightarrow> 'y \<Rightarrow> 'y" where
  "postprocess r y = y"

definition api_info :: "'b radio \<Rightarrow> (string \<times> string) list" where
  "api_info r = [(''type'', ''string'')]"

section \<open>Events (gradio/events.py)\<close>

subsection \<open>Function objects and argument values\<close>

text \<open>
  A Python function object has an identity: \<open>UserFn n\<close> is the application's function number
  \<open>n\<close>, and \<open>Wraps f\<close> is the new function object that \<open>functools.wraps(f)\<close> makes of the
  forwarding closure \<open>inner\<close>. Calling a function object is \<open>call\<close>, given what each of the
  application's functions computes.
\<close>

datatype callable = UserFn nat | Wraps callable

fun call :: "(nat \<Rightarrow> 'a \<Rightarrow> 'r) \<Rightarrow> callable \<Rightarrow> 'a \<Rightarrow> 'r" where
  "call env (UserFn n) x = env n x"
| "call env (Wraps f) x = call env f x"

text \<open>
  What is passed as \<open>fn\<close>: \<open>None\<close>, a string (the literal \<open>"decorator"\<close>), a function, or the
  cancel function that \<open>get_cancel_function\<close> builds for a list of ordinals.
\<close>

datatype fn_arg = FnNone | FnStr string | FnCallable callable | FnCancel "nat list"

text \<open>The values of \<open>show_progress\<close> and \<open>api_name\<close>, and component references.\<close>

datatype progress = SpNone | SpBool bool | SpStr string

datatype api_name = ApiNone | ApiFalse | ApiStr string

datatype components = NoComponents | Component nat | Components "nat list"

text \<open>A keyword argument of a call: left out, or given.\<close>

datatype 'a kw = Omitted | Given 'a

subsection \<open>The hosting container\<close>

text \<open>
  A registered dependency: the block it is bound to and the arguments of the
  \<open>set_event_trigger\<close> call that registered it, each keyword as the caller passed it.
\<close>

record dependency =
  d_trigger :: nat
  d_event_name :: string
  d_fn :: fn_arg
  d_inputs :: components
  d_outputs :: components
  d_preprocess :: "bool kw"
  d_postprocess :: "bool kw"
  d_scroll_to_output :: "bool kw"
  d_show_progress :: "progress kw"
  d_api_name :: "api_name kw"
  d_js :: "string option kw"
  d_queue :: "bool option kw"
  d_batch :: "bool kw"
  d_max_batch_size :: "int kw"
  d_every :: "rat option kw"
  d_cancels :: "nat list kw"
  d_trigger_after :: "nat option kw"
  d_trigger_only_on_success :: "bool kw"

text \<open>
  A block (component): its declared event names, whether its \<open>check_streamable\<close> hook
  passes, and the capability flags the event callbacks set.
\<close>

record block =
  events :: "string list"
  streamable :: bool
  selectable :: bool
  streaming :: bool
  likeable :: bool

text \<open>
  The store: the blocks by reference, the container's dependency table, and the deprecation
  warnings emitted so far.
\<close>

record state =
  blocks :: "nat \<Rightarrow> block"
  dependencies :: "dependency list"
  warnings :: "string list"

definition warn_deprecation :: "string \<Rightarrow> state \<Rightarrow> state" where
  "warn_deprecation msg s = s\<lparr>warnings := warnings s @ [msg]\<rparr>"

text \<open>
  Modelled from the spec: \<open>Block.set_event_trigger\<close> (gradio.blocks) is not among the source
  files. The spec has it register the dependency with the hosting container and return the
  record and its ordinal index in the container's table, which is append-only with
  index-stable entries.
\<close>

definition set_event_trigger :: "state \<Rightarrow> dependency \<Rightarrow> state \<times> dependency \<times> nat" where
  "set_event_trigger s d = (s\<lparr>dependencies := dependencies s @ [d]\<rparr>, d, length (dependencies s))"

text \<open>
  Modelled from the spec: \<open>check_streamable\<close> is a validation hook of the component, not among
  the source files; it passes or raises.
\<close>

definition check_streamable :: "state \<Rightarrow> nat \<Rightarrow> (error \<times> state) + state" where
  "check_streamable s b =
     (if streamable (blocks s b) then Inr s else Inl (Raised ''check_streamable'', s))"

subsection \<open>Event listeners and dependency handles\<close>

text \<open>The attributes of an \<open>EventListener\<close>; \<open>listener\<close> is \<open>event_trigger\<close> below, closed over them.\<close>

record event_listener =
  event_name :: string
  show_progress :: "string option"
  callback :: "(block \<Rightarrow> block) option"
  trigger_after :: "nat option"
  trigger_only_on_success :: bool

definition EventListener ::
  "string \<Rightarrow> string option \<Rightarrow> (block \<Rightarrow> block) option \<Rightarrow> nat option \<Rightarrow> bool \<Rightarrow> event_listener" where
  "EventListener name sp cb after only_success =
     \<lparr>event_name = name, show_progress = sp, callback = cb,
      trigger_after = after, trigger_only_on_success = only_success\<rparr>"

text \<open>
  The \<open>fn\<close> a handle holds: the original callback, or (for the decorator form) the closure
  \<open>wrapper\<close>, which takes the store and a function and registers it.
\<close>

datatype handle_fn =
    OrigFn fn_arg
  | WrapperFn "state \<Rightarrow> callable \<Rightarrow> (error \<times> state) + (state \<times> callable)"

text \<open>
  Class \<open>Dependency\<close>: the dict contents (\<open>None\<close> for the empty dict), \<open>fn\<close>, \<open>trigger\<close>, and
  the listeners behind \<open>then\<close> and \<open>success\<close> (each applied to \<open>trigger\<close> when called).
\<close>

record handle =
  h_key_vals :: "dependency option"
  h_fn :: handle_fn
  h_trigger :: "nat option"
  h_then :: event_listener
  h_success :: event_listener

definition Dependency :: "nat option \<Rightarrow> dependency option \<Rightarrow> nat option \<Rightarrow> handle_fn \<Rightarrow> handle" where
  "Dependency trig key_vals dep_index f =
     \<lparr>h_key_vals = key_vals, h_fn = f, h_trigger = trig,
      h_then = EventListener ''then'' None None dep_index False,
      h_success = EventListener ''success'' None None dep_index True\<rparr>"

text \<open>The ordinal a handle was built with, where the handle keeps it.\<close>

definition dep_index_of :: "handle \<Rightarrow> nat option" where
  "dep_index_of h = trigger_after (h_then h)"

datatype cancels = CancelsNone | CancelsOne handle | CancelsList "handle list"

text \<open>
  Modelled from the spec: \<open>get_cancel_function\<close> (gradio.utils) is not among the source files.
  The spec has the cancel binding cancel the listed targets, its target set being the ordinal
  indices of the listed handles.
\<close>

definition get_cancel_function :: "handle list \<Rightarrow> fn_arg \<times> nat list" where
  "get_cancel_function hs =
     (let fn_indices_to_cancel = List.map_filter dep_index_of hs
      in (FnCancel fn_indices_to_cancel, fn_indices_to_cancel))"

text \<open>Truth value of \<open>cancels\<close>: \<open>None\<close>, an empty list and an empty dict are false.\<close>

fun truthy :: "cancels \<Rightarrow> bool" where
  "truthy CancelsNone = False"
| "truthy (CancelsOne h) = (h_key_vals h \<noteq> None)"
| "truthy (CancelsList hs) = (hs \<noteq> [])"

text \<open>\<open>cancels\<close> as a list: a single handle is wrapped (\<open>cancels = [cancels]\<close>).\<close>

fun as_list :: "cancels \<Rightarrow> handle list" where
  "as_list (CancelsList l) = l"
| "as_list (CancelsOne h) = [h]"
| "as_list CancelsNone = []"

text \<open>The keyword arguments \<open>set_cancel_events\<close> passes to \<open>set_event_trigger\<close>.\<close>

definition cancel_call :: "nat \<Rightarrow> string \<Rightarrow> fn_arg \<Rightarrow> nat list \<Rightarrow> dependency" where
  "cancel_call blk name cancel_fn fn_indices_to_cancel =
     \<lparr>d_trigger = blk, d_event_name = name, d_fn = cancel_fn,
      d_inputs = NoComponents, d_outputs = NoComponents,
      d_preprocess = Given False, d_postprocess = Omitted,
      d_scroll_to_output = Omitted, d_show_progress = Omitted,
      d_api_name = Omitted, d_js = Omitted, d_queue = Given (Some False),
      d_batch = Omitted, d_max_batch_size = Omitted, d_every = Omitted,
      d_cancels = Given fn_indices_to_cancel,
      d_trigger_after = Omitted, d_trigger_only_on_success = Omitted\<rparr>"

definition set_cancel_events :: "state \<Rightarrow> nat \<Rightarrow> string \<Rightarrow> cancels \<Rightarrow> state" where
  "set_cancel_events s blk name cs =
     (if truthy cs then
        (let (cancel_fn, fn_indices_to_cancel) = get_cancel_function (as_list cs)
         in fst (set_event_trigger s (cancel_call blk name cancel_fn fn_indices_to_cancel)))
      else s)"

text \<open>The parameters of \<open>event_trigger\<close> after \<open>block\<close> and \<open>fn\<close>, and their defaults.\<close>

record args =
  arg_inputs :: components
  arg_outputs :: components
  arg_api_name :: api_name
  arg_status_tracker :: "nat option"
  arg_scroll_to_output :: bool
  arg_show_progress :: progress
  arg_queue :: "bool option"
  arg_batch :: bool
  arg_max_batch_size :: int
  arg_preprocess :: bool
  arg_postprocess :: bool
  arg_cancels :: cancels
  arg_every :: "rat option"
  arg_js :: "string option"

definition default_args :: args where
  "default_args =
     \<lparr>arg_inputs = NoComponents, arg_outputs = NoComponents, arg_api_name = ApiNone,
      arg_status_tracker = None, arg_scroll_to_output = False,
      arg_show_progress = SpStr ''full'', arg_queue = None, arg_batch = False,
      arg_max_batch_size = 4, arg_preprocess = True, arg_postprocess = True,
      arg_cancels = CancelsNone, arg_every = None, arg_js = None\<rparr>"

definition coerce_progress :: "progress \<Rightarrow> progress" where
  "coerce_progress p =
     (case p of SpBool v \<Rightarrow> SpStr (if v then ''full'' else ''hidden'') | _ \<Rightarrow> p)"

definition progress_or_default :: "progress \<Rightarrow> string option \<Rightarrow> progress" where
  "progress_or_default p d =
     (if p \<noteq> SpNone then p else (case d of None \<Rightarrow> SpNone | Some m \<Rightarrow> SpStr m))"

text \<open>
  The arguments \<open>event_trigger\<close> passes to \<open>set_event_trigger\<close>; \<open>sp\<close> is \<open>show_progress\<close>
  after the coercion of a boolean.
\<close>

definition bind_call :: "event_listener \<Rightarrow> nat \<Rightarrow> fn_arg \<Rightarrow> args \<Rightarrow> progress \<Rightarrow> dependency" where
  "bind_call l b f a sp =
     \<lparr>d_trigger = b, d_event_name = event_name l, d_fn = f,
      d_inputs = arg_inputs a, d_outputs = arg_outputs a,
      d_preprocess = Given (arg_preprocess a),
      d_postprocess = Given (arg_postprocess a),
      d_scroll_to_output = Given (arg_scroll_to_output a),
      d_show_progress = Given (progress_or_default sp (show_progress l)),
      d_api_name = Given (arg_api_name a),
      d_js = Given (arg_js a),
      d_queue = Given (arg_queue a),
      d_batch = Given (arg_batch a),
      d_max_batch_size = Given (arg_max_batch_size a),
      d_every = Given (arg_every a),
      d_cancels = Omitted,
      d_trigger_after = Given (trigger_after l),
      d_trigger_only_on_success = Given (trigger_only_on_success l)\<rparr>"

text \<open>
  \<open>event_trigger\<close>, closed over the listener \<open>l\<close>. \<open>block\<close> is \<open>None\<close> when a handle without
  a trigger is chained. An exception leaves the store as it was when raised.
\<close>

function event_trigger ::
  "event_listener \<Rightarrow> state \<Rightarrow> nat option \<Rightarrow> fn_arg \<Rightarrow> args \<Rightarrow> (error \<times> state) + (state \<times> handle)" where
  "event_trigger l s blk f a =
     (if f = FnStr ''decorator'' then
        Inr (s, Dependency None None None
               (WrapperFn (\<lambda>s' func.
                  case event_trigger l s' blk (FnCallable func) a of
                    Inl e \<Rightarrow> Inl e
                  | Inr (s'', _) \<Rightarrow> Inr (s'', Wraps func))))
      else
        (let s1 = (if arg_status_tracker a \<noteq> None
                   then warn_deprecation
                          ''The 'status_tracker' parameter has been deprecated and has no effect.'' s
                   else s);
             s2 = (if event_name l = ''stop''
                   then warn_deprecation
                          ''The `stop` event on Video and Audio has been deprecated and will be remove in a future version. Use `ended` instead.'' s1
                   else s1)
         in case blk of
              None \<Rightarrow> Inl (AttributeError ''events'', s2)
            | Some b \<Rightarrow>
               (case (if ''stream'' \<in> set (events (blocks s2 b))
                      then check_streamable s2 b else Inr s2) of
                  Inl e \<Rightarrow> Inl e
                | Inr s3 \<Rightarrow>
                   (let sp = coerce_progress (arg_show_progress a);
                        (s4, dep, dep_index) = set_event_trigger s3 (bind_call l b f a sp);
                        s5 = set_cancel_events s4 b (event_name l) (arg_cancels a);
                        s6 = (case callback l of
                                None \<Rightarrow> s5
                              | Some cb \<Rightarrow> s5\<lparr>blocks := (blocks s5)(b := cb (blocks s5 b))\<rparr>)
                    in Inr (s6, Dependency (Some b) (Some dep) (Some dep_index) (OrigFn f))))))"
  by pat_completeness auto
termination
  by (relation "measure (\<lambda>(l, s, blk, f, a). if f = FnStr ''decorator'' then 1 else 0)") auto

declare event_trigger.simps [simp del]

text \<open>\<open>Dependency.__call__\<close> on the decorator form: \<open>self.fn(func)\<close>, the closure \<open>wrapper\<close>.\<close>

definition apply_decorator ::
  "handle \<Rightarrow> state \<Rightarrow> callable \<Rightarrow> ((error \<times> state) + (state \<times> callable)) option" where
  "apply_decorator h s func = (case h_fn h of WrapperFn w \<Rightarrow> Some (w s func) | OrigFn _ \<Rightarrow> None)"

text \<open>\<open>h.then(...)\<close> and \<open>h.success(...)\<close>: the stored listener applied to the stored trigger.\<close>

definition Dependency_then ::
  "handle \<Rightarrow> state \<Rightarrow> fn_arg \<Rightarrow> args \<Rightarrow> (error \<times> state) + (state \<times> handle)" where
  "Dependency_then h s f a = event_trigger (h_then h) s (h_trigger h) f a"

definition Dependency_success ::
  "handle \<Rightarrow> state \<Rightarrow> fn_arg \<Rightarrow> args \<Rightarrow> (error \<times> state) + (state \<times> handle)" where
  "Dependency_success h s f a = event_trigger (h_success h) s (h_trigger h) f a"

subsection \<open>The event catalogue\<close>

definition Events_select :: event_listener where
  "Events_select = EventListener ''select'' None (Some (\<lambda>b. b\<lparr>selectable := True\<rparr>)) None False"

definition Events_stream :: event_listener where
  "Events_stream =
     EventListener ''stream'' (Some ''hidden'') (Some (\<lambda>b. b\<lparr>streaming := True\<rparr>)) None False"

definition Events_like :: event_listener where
  "Events_like = EventListener ''like'' None (Some (\<lambda>b. b\<lparr>likeable := True\<rparr>)) None False"

subsection \<open>What running a dependency pre- and postprocesses\<close>





section \<open>Example inputs\<close>

text \<open>The radio of the spec's scenario: choices a, b, c, returning positions.\<close>

definition abc_radio :: "unit radio" where
  "abc_radio = \<lparr>choices = [(''a'', PyStr ''a''), (''b'', PyStr ''b''), (''c'', PyStr ''c'')],
                 type = ''index'', base = ()\<rparr>"

text \<open>
  A radio as a block (its events are select, change and input) in an empty container, two
  bindings of select on it, and a third binding that cancels both.
\<close>

definition radio_block :: block where
  "radio_block =
     \<lparr>events = [''select'', ''change'', ''input''], streamable = True,
      selectable = False, streaming = False, likeable = False\<rparr>"

definition camera_block :: block where
  "camera_block =
     \<lparr>events = [''stream'', ''change''], streamable = True,
      selectable = False, streaming = False, likeable = False\<rparr>"

fun example_blocks :: "nat \<Rightarrow> block" where
  "example_blocks n = (if n = 0 then radio_block else camera_block)"

definition example_state :: state where
  "example_state = \<lparr>blocks = example_blocks, dependencies = [], warnings = []\<rparr>"

definition first_bind :: "(error \<times> state) + (state \<times> handle)" where
  "first_bind = event_trigger Events_select example_state (Some 0) (FnCallable (UserFn 0)) default_args"



definition stream_bind :: "(error \<times> state) + (state \<times> handle)" where
  "stream_bind = event_trigger Events_stream example_state (Some 1) (FnCallable (UserFn 0)) default_args"

definition decorator_bind :: "(error \<times> state) + (state \<times> handle)" where
  "decorator_bind = event_trigger Events_select example_state (Some 0) (FnStr ''decorator'') default_args"

section \<open>The radio component: properties\<close>

subsection \<open>Membership and position in a Python list\<close>

lemma py_in_iff: "py_in x ys \<longleftrightarrow> (\<exists>y\<in>set ys. py_eq y x)"
  by (induction ys) auto

lemma py_index_first:
  "py_in x ys \<Longrightarrow> \<exists>i. py_index ys x = Inr i \<and> i < length ys \<and> py_eq (ys ! i) x \<and> (\<forall>j<i. \<not> py_eq (ys ! j) x)"
proof (induction ys)
  case Nil
  then show ?case by simp
next
  case (Cons y ys)
  show ?case
  proof (cases "py_eq y x")
    case True
    then show ?thesis by simp
  next
    case False
    with Cons.prems have "py_in x ys" by simp
    from Cons.IH [OF this] obtain i where i: "py_index ys x = Inr i" "i < length ys"
      "py_eq (ys ! i) x" "\<forall>j<i. \<not> py_eq (ys ! j) x" by blast
    have "\<forall>j<Suc i. \<not> py_eq ((y # ys) ! j) x"
    proof (intro allI impI)
      fix j assume "j < Suc i"
      then show "\<not> py_eq ((y # ys) ! j) x" using False i(4) by (cases j) auto
    qed
    with False i show ?thesis by simp
  qed
qed

lemma py_index_total: "py_in x ys \<Longrightarrow> \<exists>i. py_index ys x = Inr i"
  using py_index_first by blast

subsection \<open>Index mode\<close>

text \<open>
  C2. For a radio whose \<open>type\<close> is \<open>index\<close>: \<open>preprocess\<close> of \<open>None\<close> is \<open>None\<close>; of a value
  equal to none of the configured choice values it is \<open>None\<close>; of a value that occurs among
  them it is the position of the first occurrence (the value at that position equals it, and
  no earlier one does).
\<close>

theorem preprocess_index_mode:
  "type r = ''index'' \<Longrightarrow>
     preprocess r None = Inr None
   \<and> ((\<forall>y\<in>set (map snd (choices r)). \<not> py_eq y v) \<longrightarrow> preprocess r (Some v) = Inr None)
   \<and> ((\<exists>y\<in>set (map snd (choices r)). py_eq y v) \<longrightarrow>
        (\<exists>i. preprocess r (Some v) = Inr (Some (PyInt (int i)))
           \<and> i < length (choices r)
           \<and> py_eq (snd (choices r ! i)) v
           \<and> (\<forall>j<i. \<not> py_eq (snd (choices r ! j)) v)))"
proof (intro conjI impI)
  assume t: "type r = ''index''"
  show "preprocess r None = Inr None" using t by (simp add: preprocess_def)
  { assume "\<forall>y\<in>set (map snd (choices r)). \<not> py_eq y v"
    then have "\<not> py_in v (map snd (choices r))" by (simp add: py_in_iff)
    then show "preprocess r (Some v) = Inr None" using t by (simp add: preprocess_def) }
  { assume "\<exists>y\<in>set (map snd (choices r)). py_eq y v"
    then have m: "py_in v (map snd (choices r))" by (simp add: py_in_iff)
    from py_index_first [OF m] obtain i where i: "py_index (map snd (choices r)) v = Inr i"
      "i < length (map snd (choices r))" "py_eq (map snd (choices r) ! i) v"
      "\<forall>j<i. \<not> py_eq (map snd (choices r) ! j) v" by blast
    have "preprocess r (Some v) = Inr (Some (PyInt (int i)))"
      using t m i(1) by (simp add: preprocess_def)
    moreover have "i < length (choices r)" using i(2) by simp
    moreover have "py_eq (snd (choices r ! i)) v" using i(2,3) by simp
    moreover have "\<forall>j<i. \<not> py_eq (snd (choices r ! j)) v" using i(2,4) by simp
    ultimately show "\<exists>i. preprocess r (Some v) = Inr (Some (PyInt (int i)))
           \<and> i < length (choices r)
           \<and> py_eq (snd (choices r ! i)) v
           \<and> (\<forall>j<i. \<not> py_eq (snd (choices r ! j)) v)" by blast }
qed

theorem preprocess_index_mode_witness:
  "type abc_radio = ''index''
   \<and> preprocess abc_radio None = Inr None
   \<and> preprocess abc_radio (Some (PyStr ''z'')) = Inr None
   \<and> preprocess abc_radio (Some (PyStr ''b'')) = Inr (Some (PyInt 1))"
proof -
  have t: "type abc_radio = ''index''" by (simp add: abc_radio_def)
  have absent: "\<forall>y\<in>set (map snd (choices abc_radio)). \<not> py_eq y (PyStr ''z'')"
    by (simp add: abc_radio_def)
  have present: "\<exists>y\<in>set (map snd (choices abc_radio)). py_eq y (PyStr ''b'')"
    by (simp add: abc_radio_def)
  from preprocess_index_mode [OF t, of "PyStr ''z''"] absent
  have z: "preprocess abc_radio None = Inr None" "preprocess abc_radio (Some (PyStr ''z'')) = Inr None"
    by blast+
  from preprocess_index_mode [OF t, of "PyStr ''b''"] present
  obtain i where i: "preprocess abc_radio (Some (PyStr ''b'')) = Inr (Some (PyInt (int i)))"
    "i < length (choices abc_radio)" "py_eq (snd (choices abc_radio ! i)) (PyStr ''b'')"
    "\<forall>j<i. \<not> py_eq (snd (choices abc_radio ! j)) (PyStr ''b'')" by blast
  have "i = 1"
  proof -
    from i(2) have "i < 3" by (simp add: abc_radio_def)
    then consider "i = 0" | "i = 1" | "i = 2" by linarith
    then show ?thesis
    proof cases
      case 1 with i(3) show ?thesis by (simp add: abc_radio_def)
    next
      case 2 then show ?thesis .
    next
      case 3 with i(3) show ?thesis by (simp add: abc_radio_def)
    qed
  qed
  with i(1) t z show ?thesis by simp
qed

subsection \<open>Construction\<close>

text \<open>
  C6. Constructing a radio with a \<open>type\<close> other than \<open>value\<close> and \<open>index\<close> raises a
  \<open>ValueError\<close> whose message lists both accepted values, and yields no radio. With an
  accepted \<open>type\<close> the constructor raises nothing of its own: the result is the radio with the
  normalised choices, that \<open>type\<close> and the base-class state, or the exception of the base-class
  constructor if that one raises.
\<close>

theorem Radio_init_validates_type:
  "(ty \<notin> {''value'', ''index''} \<longrightarrow>
      Radio_init repr_float super_init cs ty kw =
        Inl (ValueError (''Invalid value for parameter `type`: '' @ ty
                         @ ''. Please choose from one of: ['value', 'index']'')))
   \<and> (ty \<in> {''value'', ''index''} \<longrightarrow>
        (\<forall>b. super_init kw = Inr b \<longrightarrow>
           Radio_init repr_float super_init cs ty kw =
             Inr \<lparr>choices = normalize_choices repr_float cs, type = ty, base = b\<rparr>)
      \<and> (\<forall>e. super_init kw = Inl e \<longrightarrow> Radio_init repr_float super_init cs ty kw = Inl e))"
proof (intro conjI impI allI)
  assume "ty \<notin> {''value'', ''index''}"
  then have "ty \<notin> set valid_types" by (simp add: valid_types_def)
  then show "Radio_init repr_float super_init cs ty kw =
        Inl (ValueError (''Invalid value for parameter `type`: '' @ ty
                         @ ''. Please choose from one of: ['value', 'index']''))"
    by (simp add: Radio_init_def str_list_def valid_types_def repr_str_def)
next
  fix b assume "ty \<in> {''value'', ''index''}" "super_init kw = Inr b"
  then show "Radio_init repr_float super_init cs ty kw =
             Inr \<lparr>choices = normalize_choices repr_float cs, type = ty, base = b\<rparr>"
    by (auto simp add: Radio_init_def valid_types_def)
next
  fix e assume "ty \<in> {''value'', ''index''}" "super_init kw = Inl e"
  then show "Radio_init repr_float super_init cs ty kw = Inl e"
    by (auto simp add: Radio_init_def valid_types_def)
qed

theorem Radio_init_validates_type_witness:
  "Radio_init (\<lambda>q. ''1.5'') (\<lambda>kw. Inr kw) (Some [Bare (PyInt 1), Bare (PyInt 2)]) ''bogus'' () =
     Inl (ValueError ''Invalid value for parameter `type`: bogus. Please choose from one of: ['value', 'index']'')
   \<and> Radio_init (\<lambda>q. ''1.5'') (\<lambda>kw. Inr kw) (Some [Bare (PyInt 1), Bare (PyInt 2)]) ''value'' () =
     Inr \<lparr>choices = [(''1'', PyInt 1), (''2'', PyInt 2)], type = ''value'', base = ()\<rparr>
   \<and> Radio_init (\<lambda>q. ''1.5'') (\<lambda>kw. Inr kw) (Some [Bare (PyInt 1), Bare (PyInt 2)]) ''index'' () =
     Inr \<lparr>choices = [(''1'', PyInt 1), (''2'', PyInt 2)], type = ''index'', base = ()\<rparr>"
  using Radio_init_validates_type [of "''bogus''" "\<lambda>q. ''1.5''" "\<lambda>kw. Inr kw" "Some [Bare (PyInt 1), Bare (PyInt 2)]" "()"]
        Radio_init_validates_type [of "''value''" "\<lambda>q. ''1.5''" "\<lambda>kw. Inr kw" "Some [Bare (PyInt 1), Bare (PyInt 2)]" "()"]
        Radio_init_validates_type [of "''index''" "\<lambda>q. ''1.5''" "\<lambda>kw. Inr kw" "Some [Bare (PyInt 1), Bare (PyInt 2)]" "()"]
  by (simp add: normalize_choices_def str_int_def)

subsection \<open>The defensive branch of preprocessing\<close>

lemma preprocess_valid_type:
  "type r \<in> {''value'', ''index''} \<Longrightarrow> \<exists>y. preprocess r x = Inr y"
proof -
  assume t: "type r \<in> {''value'', ''index''}"
  show ?thesis
  proof (cases "type r = ''value''")
    case True then show ?thesis by (simp add: preprocess_def)
  next
    case False
    with t have ix: "type r = ''index''" by simp
    show ?thesis
    proof (cases x)
      case None with ix show ?thesis by (simp add: preprocess_def)
    next
      case (Some v)
      show ?thesis
      proof (cases "py_in v (map snd (choices r))")
        case True
        from py_index_total [OF this] obtain i where "py_index (map snd (choices r)) v = Inr i" ..
        with ix Some True show ?thesis by (simp add: preprocess_def)
      next
        case False with ix Some show ?thesis by (simp add: preprocess_def)
      qed
    qed
  qed
qed

lemma Radio_init_type:
  "Radio_init repr_float super_init cs ty kw = Inr r \<Longrightarrow> type r \<in> {''value'', ''index''}"
  by (auto simp add: Radio_init_def valid_types_def split: if_splits sum.splits)

text \<open>
  C9. On a radio that \<open>Radio_init\<close> has returned, \<open>preprocess\<close> returns a result for every
  input and never raises: the \<open>Unknown type\<close> branch is not reached.
\<close>

theorem preprocess_never_invalid_state:
  "Radio_init repr_float super_init cs ty kw = Inr r \<Longrightarrow>
     (\<exists>y. preprocess r x = Inr y) \<and> (\<forall>msg. preprocess r x \<noteq> Inl (ValueError msg))"
proof -
  assume "Radio_init repr_float super_init cs ty kw = Inr r"
  then have "type r \<in> {''value'', ''index''}" by (rule Radio_init_type)
  from preprocess_valid_type [OF this] obtain y where "preprocess r x = Inr y" ..
  then show ?thesis by simp
qed

theorem preprocess_never_invalid_state_witness:
  "Radio_init (\<lambda>q. ''1.5'') (\<lambda>kw. Inr kw) (Some [Bare (PyStr ''a''), Tuple ''B'' (PyInt 2)]) ''index'' ()
     = Inr \<lparr>choices = [(''a'', PyStr ''a''), (''B'', PyInt 2)], type = ''index'', base = ()\<rparr>
   \<and> preprocess \<lparr>choices = [(''a'', PyStr ''a''), (''B'', PyInt 2)], type = ''index'', base = ()\<rparr>
        (Some (PyFloat 2)) = Inr (Some (PyInt 1))"
proof -
  have c: "Radio_init (\<lambda>q. ''1.5'') (\<lambda>kw. Inr kw) (Some [Bare (PyStr ''a''), Tuple ''B'' (PyInt 2)]) ''index'' ()
     = Inr \<lparr>choices = [(''a'', PyStr ''a''), (''B'', PyInt 2)], type = ''index'', base = ()\<rparr>"
    by (simp add: Radio_init_def normalize_choices_def valid_types_def)
  from preprocess_never_invalid_state [OF c, of "Some (PyFloat 2)"]
  obtain y where "preprocess \<lparr>choices = [(''a'', PyStr ''a''), (''B'', PyInt 2)], type = ''index'', base = ()\<rparr>
        (Some (PyFloat 2)) = Inr y" by blast
  then have "preprocess \<lparr>choices = [(''a'', PyStr ''a''), (''B'', PyInt 2)], type = ''index'', base = ()\<rparr>
        (Some (PyFloat 2)) = Inr (Some (PyInt 1))" by (simp add: preprocess_def)
  with c show ?thesis by simp
qed

subsection \<open>Value mode\<close>

text \<open>
  C10. For a radio whose \<open>type\<close> is \<open>value\<close>, \<open>preprocess\<close> returns its input unchanged,
  whatever the configured choices: \<open>None\<close> stays \<open>None\<close>, and a value that is not among the
  choices is returned as it is.
\<close>

theorem preprocess_value_mode_identity:
  "type r = ''value'' \<Longrightarrow> preprocess r x = Inr x"
  by (simp add: preprocess_def)

theorem preprocess_value_mode_identity_witness:
  "type (abc_radio\<lparr>type := ''value''\<rparr>) = ''value''
   \<and> preprocess (abc_radio\<lparr>type := ''value''\<rparr>) None = Inr None
   \<and> preprocess (abc_radio\<lparr>type := ''value''\<rparr>) (Some (PyStr ''z'')) = Inr (Some (PyStr ''z''))"
proof -
  have t: "type (abc_radio\<lparr>type := ''value''\<rparr>) = ''value''" by simp
  show ?thesis
    using t preprocess_value_mode_identity [OF t, of None]
      preprocess_value_mode_identity [OF t, of "Some (PyStr ''z'')"] by simp
qed

subsection \<open>The declared wire type\<close>

text \<open>
  C8. \<open>api_info\<close> is the dictionary with the single entry \<open>type: string\<close> for every radio,
  also one whose choices are numbers.
\<close>

theorem api_info_string:
  "api_info r = [(''type'', ''string'')]
   \<and> api_info \<lparr>choices = [(''1'', PyInt 1), (''2.5'', PyFloat (5 / 2))], type = ty, base = b\<rparr>
       = [(''type'', ''string'')]"
  by (simp add: api_info_def)

section \<open>Events: properties\<close>

subsection \<open>What a call of the binder does\<close>

text \<open>With the literal \<open>"decorator"\<close> nothing is registered; the handle holds the closure.\<close>

lemma event_trigger_decorator:
  "event_trigger l s blk (FnStr ''decorator'') a =
     Inr (s, Dependency None None None
               (WrapperFn (\<lambda>s' func.
                  case event_trigger l s' blk (FnCallable func) a of
                    Inl e \<Rightarrow> Inl e
                  | Inr (s'', _) \<Rightarrow> Inr (s'', Wraps func))))"
  by (subst event_trigger.simps) simp

lemma set_cancel_events_dependencies:
  "dependencies (set_cancel_events s b name cs) =
     dependencies s @
       (if truthy cs
        then [cancel_call b name (FnCancel (List.map_filter dep_index_of (as_list cs)))
                (List.map_filter dep_index_of (as_list cs))]
        else [])"
  by (simp add: set_cancel_events_def get_cancel_function_def set_event_trigger_def Let_def)

lemma set_cancel_events_blocks: "blocks (set_cancel_events s b name cs) = blocks s"
  by (simp add: set_cancel_events_def get_cancel_function_def set_event_trigger_def Let_def)

text \<open>
  With any other callback, on a block whose streaming check passes (or that declares no
  stream event), the call returns a handle; the table grows by the record of the binding and,
  when \<open>cancels\<close> is true, the record of the cancel binding; the callback of the event
  kind is applied to the block.
\<close>

lemma event_trigger_bind:
  assumes f: "f \<noteq> FnStr ''decorator''"
    and ok: "''stream'' \<in> set (events (blocks s b)) \<longrightarrow> streamable (blocks s b)"
  shows "\<exists>s'. event_trigger l s (Some b) f a =
            Inr (s', Dependency (Some b)
                       (Some (bind_call l b f a (coerce_progress (arg_show_progress a))))
                       (Some (length (dependencies s))) (OrigFn f))
          \<and> dependencies s' =
              dependencies s @ bind_call l b f a (coerce_progress (arg_show_progress a)) #
                (if truthy (arg_cancels a)
                 then [cancel_call b (event_name l)
                         (FnCancel (List.map_filter dep_index_of (as_list (arg_cancels a))))
                         (List.map_filter dep_index_of (as_list (arg_cancels a)))]
                 else [])
          \<and> blocks s' =
              (case callback l of None \<Rightarrow> blocks s
               | Some cb \<Rightarrow> (blocks s)(b := cb (blocks s b)))"
  using f ok
  apply (subst event_trigger.simps)
  apply (simp add: Let_def warn_deprecation_def check_streamable_def set_event_trigger_def
      set_cancel_events_dependencies set_cancel_events_blocks split: option.splits)
  done

lemma event_trigger_check_fails:
  assumes f: "f \<noteq> FnStr ''decorator''"
    and bad: "''stream'' \<in> set (events (blocks s b))" "\<not> streamable (blocks s b)"
  shows "\<exists>e. event_trigger l s (Some b) f a = Inl e"
  using f bad
  apply (subst event_trigger.simps)
  apply (simp add: Let_def warn_deprecation_def check_streamable_def)
  done

lemma event_trigger_returns:
  assumes r: "event_trigger l s (Some b) f a = Inr (s', h)" and f: "f \<noteq> FnStr ''decorator''"
  shows "(''stream'' \<in> set (events (blocks s b)) \<longrightarrow> streamable (blocks s b))"
proof (rule ccontr)
  assume "\<not> ?thesis"
  then have "''stream'' \<in> set (events (blocks s b))" "\<not> streamable (blocks s b)" by auto
  from event_trigger_check_fails [OF f this, of l a] r show False by auto
qed

subsection \<open>The example bindings\<close>

lemma first_bind_eval:
  "\<exists>s. first_bind = Inr (s, Dependency (Some 0) (Some (bind_call Events_select 0 (FnCallable (UserFn 0)) default_args (SpStr ''full''))) (Some 0) (OrigFn (FnCallable (UserFn 0))))
     \<and> dependencies s = [bind_call Events_select 0 (FnCallable (UserFn 0)) default_args (SpStr ''full'')]
     \<and> blocks s = example_blocks(0 := radio_block\<lparr>selectable := True\<rparr>)"
  using event_trigger_bind [of "FnCallable (UserFn 0)" example_state 0 Events_select default_args]
  by (simp add: first_bind_def example_state_def radio_block_def default_args_def coerce_progress_def
      Events_select_def EventListener_def)

lemma first_bind_state:
  "dependencies (fst (projr first_bind)) = [bind_call Events_select 0 (FnCallable (UserFn 0)) default_args (SpStr ''full'')]
  \<and> blocks (fst (projr first_bind)) = example_blocks(0 := radio_block\<lparr>selectable := True\<rparr>)
  \<and> snd (projr first_bind) = Dependency (Some 0) (Some (bind_call Events_select 0 (FnCallable (UserFn 0)) default_args (SpStr ''full''))) (Some 0) (OrigFn (FnCallable (UserFn 0)))
  \<and> \<not> isl first_bind"
proof -
  from first_bind_eval obtain s where r:
    "first_bind = Inr (s, Dependency (Some 0) (Some (bind_call Events_select 0 (FnCallable (UserFn 0)) default_args (SpStr ''full''))) (Some 0) (OrigFn (FnCallable (UserFn 0))))"
    "dependencies s = [bind_call Events_select 0 (FnCallable (UserFn 0)) default_args (SpStr ''full'')]"
    "blocks s = example_blocks(0 := radio_block\<lparr>selectable := True\<rparr>)"
    by blast
  show ?thesis by (simp add: r)
qed

lemma first_bind_Inr: "first_bind = Inr (fst (projr first_bind), snd (projr first_bind))"
proof -
  from first_bind_eval obtain s h where r: "first_bind = Inr (s, h)" by blast
  show ?thesis by (simp add: r)
qed

subsection \<open>The progress mode that is registered\<close>

text \<open>
  The registered mode: a boolean is coerced (true to full, false to hidden), a string is
  passed on, and \<open>None\<close> falls back to the default of the event kind.
\<close>

lemma bind_show_progress:
  assumes f: "f \<noteq> FnStr ''decorator''"
    and ok: "''stream'' \<in> set (events (blocks s b)) \<longrightarrow> streamable (blocks s b)"
  shows "\<exists>s' h. event_trigger l s (Some b) f a = Inr (s', h)
           \<and> d_show_progress (dependencies s' ! length (dependencies s)) =
               Given (case arg_show_progress a of
                        SpBool True \<Rightarrow> SpStr ''full''
                      | SpBool False \<Rightarrow> SpStr ''hidden''
                      | SpStr m \<Rightarrow> SpStr m
                      | SpNone \<Rightarrow> (case show_progress l of None \<Rightarrow> SpNone | Some m \<Rightarrow> SpStr m))"
proof -
  from event_trigger_bind [OF f ok, of l a] obtain s' where
    r: "event_trigger l s (Some b) f a =
            Inr (s', Dependency (Some b)
                       (Some (bind_call l b f a (coerce_progress (arg_show_progress a))))
                       (Some (length (dependencies s))) (OrigFn f))"
    and d: "dependencies s' ! length (dependencies s) =
              bind_call l b f a (coerce_progress (arg_show_progress a))"
    by auto
  have "d_show_progress (bind_call l b f a (coerce_progress (arg_show_progress a))) =
               Given (case arg_show_progress a of
                        SpBool True \<Rightarrow> SpStr ''full''
                      | SpBool False \<Rightarrow> SpStr ''hidden''
                      | SpStr m \<Rightarrow> SpStr m
                      | SpNone \<Rightarrow> (case show_progress l of None \<Rightarrow> SpNone | Some m \<Rightarrow> SpStr m))"
    by (simp add: bind_call_def coerce_progress_def progress_or_default_def
        split: progress.splits bool.splits)
  with r d show ?thesis by simp
qed

text \<open>
  C1. The stream event has the default mode hidden. Bound on a streaming block with every
  keyword argument left out, so that \<open>show_progress\<close> has its parameter default, the binding
  is registered with the mode full, not hidden.
\<close>

theorem stream_default_progress:
  "show_progress Events_stream = Some ''hidden''
   \<and> \<not> isl stream_bind
   \<and> map d_show_progress (dependencies (fst (projr stream_bind))) = [Given (SpStr ''full'')]"
proof -
  have f: "FnCallable (UserFn 0) \<noteq> FnStr ''decorator''" by simp
  have ok: "''stream'' \<in> set (events (blocks example_state 1)) \<longrightarrow> streamable (blocks example_state 1)"
    by (simp add: example_state_def camera_block_def)
  from event_trigger_bind [OF f ok, of Events_stream default_args]
  obtain s' h where r: "stream_bind = Inr (s', h)"
    and d: "dependencies s' = dependencies example_state @
              bind_call Events_stream 1 (FnCallable (UserFn 0)) default_args
                (coerce_progress (arg_show_progress default_args)) #
              (if truthy (arg_cancels default_args)
                 then [cancel_call 1 (event_name Events_stream)
                         (FnCancel (List.map_filter dep_index_of (as_list (arg_cancels default_args))))
                         (List.map_filter dep_index_of (as_list (arg_cancels default_args)))]
                 else [])"
    unfolding stream_bind_def by blast
  have "map d_show_progress (dependencies s') = [Given (SpStr ''full'')]"
    unfolding d
    by (simp add: example_state_def default_args_def bind_call_def coerce_progress_def
        progress_or_default_def)
  moreover have "show_progress Events_stream = Some ''hidden''"
    by (simp add: Events_stream_def EventListener_def)
  ultimately show ?thesis by (simp add: r)
qed

subsection \<open>Chaining with then and success\<close>

text \<open>
  C4. A handle returned by a binding that registered at ordinal \<open>i\<close> (the length of the
  table before it) holds \<open>i\<close>, and the record at \<open>i\<close> is its own. Calling \<open>then\<close> on it,
  in any later store, registers a dependency on the event \<open>then\<close> with trigger-after \<open>i\<close> and
  trigger-only-on-success false; calling \<open>success\<close> registers one on the event \<open>success\<close>
  with trigger-after \<open>i\<close> and trigger-only-on-success true.
\<close>

theorem then_success_ordinal:
  assumes reg: "event_trigger l0 s0 (Some b) f0 a0 = Inr (s1, h)"
    and f0: "f0 \<noteq> FnStr ''decorator''"
    and f: "f \<noteq> FnStr ''decorator''"
    and ok: "''stream'' \<in> set (events (blocks s b)) \<longrightarrow> streamable (blocks s b)"
  shows "dep_index_of h = Some (length (dependencies s0))
       \<and> Some (dependencies s1 ! length (dependencies s0)) = h_key_vals h
       \<and> (\<exists>s' h'. Dependency_then h s f a = Inr (s', h')
             \<and> d_event_name (dependencies s' ! length (dependencies s)) = ''then''
             \<and> d_fn (dependencies s' ! length (dependencies s)) = f
             \<and> d_trigger_after (dependencies s' ! length (dependencies s))
                 = Given (Some (length (dependencies s0)))
             \<and> d_trigger_only_on_success (dependencies s' ! length (dependencies s)) = Given False)
       \<and> (\<exists>s' h'. Dependency_success h s f a = Inr (s', h')
             \<and> d_event_name (dependencies s' ! length (dependencies s)) = ''success''
             \<and> d_fn (dependencies s' ! length (dependencies s)) = f
             \<and> d_trigger_after (dependencies s' ! length (dependencies s))
                 = Given (Some (length (dependencies s0)))
             \<and> d_trigger_only_on_success (dependencies s' ! length (dependencies s)) = Given True)"
proof -
  have ok0: "''stream'' \<in> set (events (blocks s0 b)) \<longrightarrow> streamable (blocks s0 b)"
    using event_trigger_returns [OF reg f0] .
  from event_trigger_bind [OF f0 ok0, of l0 a0] reg
  have h: "h = Dependency (Some b)
                 (Some (bind_call l0 b f0 a0 (coerce_progress (arg_show_progress a0))))
                 (Some (length (dependencies s0))) (OrigFn f0)"
    and d1: "dependencies s1 ! length (dependencies s0) =
               bind_call l0 b f0 a0 (coerce_progress (arg_show_progress a0))"
    by auto
  have i: "dep_index_of h = Some (length (dependencies s0))"
    by (simp add: h dep_index_of_def Dependency_def EventListener_def)
  have kv: "Some (dependencies s1 ! length (dependencies s0)) = h_key_vals h"
    by (simp add: h d1 Dependency_def)
  have trig: "h_trigger h = Some b" by (simp add: h Dependency_def)
  have th: "h_then h = EventListener ''then'' None None (Some (length (dependencies s0))) False"
    by (simp add: h Dependency_def)
  have su: "h_success h = EventListener ''success'' None None (Some (length (dependencies s0))) True"
    by (simp add: h Dependency_def)
  from event_trigger_bind [OF f ok, of "h_then h" a] obtain s' where
    r: "event_trigger (h_then h) s (Some b) f a =
            Inr (s', Dependency (Some b)
                       (Some (bind_call (h_then h) b f a (coerce_progress (arg_show_progress a))))
                       (Some (length (dependencies s))) (OrigFn f))"
    and d: "dependencies s' ! length (dependencies s) =
              bind_call (h_then h) b f a (coerce_progress (arg_show_progress a))"
    by auto
  have t: "\<exists>s' h'. Dependency_then h s f a = Inr (s', h')
             \<and> d_event_name (dependencies s' ! length (dependencies s)) = ''then''
             \<and> d_fn (dependencies s' ! length (dependencies s)) = f
             \<and> d_trigger_after (dependencies s' ! length (dependencies s))
                 = Given (Some (length (dependencies s0)))
             \<and> d_trigger_only_on_success (dependencies s' ! length (dependencies s)) = Given False"
    using r d by (simp add: Dependency_then_def trig th bind_call_def EventListener_def)
  from event_trigger_bind [OF f ok, of "h_success h" a] obtain s'' where
    r2: "event_trigger (h_success h) s (Some b) f a =
            Inr (s'', Dependency (Some b)
                       (Some (bind_call (h_success h) b f a (coerce_progress (arg_show_progress a))))
                       (Some (length (dependencies s))) (OrigFn f))"
    and d2: "dependencies s'' ! length (dependencies s) =
              bind_call (h_success h) b f a (coerce_progress (arg_show_progress a))"
    by auto
  have u: "\<exists>s' h'. Dependency_success h s f a = Inr (s', h')
             \<and> d_event_name (dependencies s' ! length (dependencies s)) = ''success''
             \<and> d_fn (dependencies s' ! length (dependencies s)) = f
             \<and> d_trigger_after (dependencies s' ! length (dependencies s))
                 = Given (Some (length (dependencies s0)))
             \<and> d_trigger_only_on_success (dependencies s' ! length (dependencies s)) = Given True"
    using r2 d2 by (simp add: Dependency_success_def trig su bind_call_def EventListener_def)
  from i kv t u show ?thesis by blast
qed

theorem then_success_ordinal_witness:
  "dep_index_of (snd (projr first_bind)) = Some 0
   \<and> (\<exists>s' h'. Dependency_then (snd (projr first_bind)) (fst (projr first_bind))
                  (FnCallable (UserFn 1)) default_args = Inr (s', h')
        \<and> d_trigger_after (dependencies s' ! 1) = Given (Some 0)
        \<and> d_trigger_only_on_success (dependencies s' ! 1) = Given False)
   \<and> (\<exists>s' h'. Dependency_success (snd (projr first_bind)) (fst (projr first_bind))
                  (FnCallable (UserFn 1)) default_args = Inr (s', h')
        \<and> d_trigger_after (dependencies s' ! 1) = Given (Some 0)
        \<and> d_trigger_only_on_success (dependencies s' ! 1) = Given True)"
proof -
  have reg: "event_trigger Events_select example_state (Some 0) (FnCallable (UserFn 0)) default_args
               = Inr (fst (projr first_bind), snd (projr first_bind))"
    using first_bind_Inr by (simp add: first_bind_def)
  have f0: "FnCallable (UserFn 0) \<noteq> FnStr ''decorator''" by simp
  have f: "FnCallable (UserFn 1) \<noteq> FnStr ''decorator''" by simp
  have ok: "''stream'' \<in> set (events (blocks (fst (projr first_bind)) 0))
              \<longrightarrow> streamable (blocks (fst (projr first_bind)) 0)"
    using first_bind_state by (simp add: radio_block_def)
  have len0: "length (dependencies example_state) = 0" by (simp add: example_state_def)
  have len1: "length (dependencies (fst (projr first_bind))) = 1" using first_bind_state by simp
  from then_success_ordinal [OF reg f0 f ok, of default_args]
  show ?thesis unfolding len0 len1 by blast
qed

subsection \<open>The select event and the selectable flag\<close>

text \<open>
  C7. Binding the select event on a block sets its \<open>selectable\<close> flag; binding it a second
  time leaves the flag set and changes no block.
\<close>

theorem select_sets_selectable:
  assumes ok: "''stream'' \<in> set (events (blocks s b)) \<longrightarrow> streamable (blocks s b)"
    and f1: "f1 \<noteq> FnStr ''decorator''" and f2: "f2 \<noteq> FnStr ''decorator''"
  shows "\<exists>s1 h1 s2 h2.
           event_trigger Events_select s (Some b) f1 a1 = Inr (s1, h1)
         \<and> selectable (blocks s1 b)
         \<and> event_trigger Events_select s1 (Some b) f2 a2 = Inr (s2, h2)
         \<and> selectable (blocks s2 b)
         \<and> blocks s2 = blocks s1"
proof -
  have cb: "callback Events_select = Some (\<lambda>b. b\<lparr>selectable := True\<rparr>)"
    by (simp add: Events_select_def EventListener_def)
  from event_trigger_bind [OF f1 ok, of Events_select a1] obtain s1 h1 where
    r1: "event_trigger Events_select s (Some b) f1 a1 = Inr (s1, h1)"
    and b1: "blocks s1 = (blocks s)(b := (blocks s b)\<lparr>selectable := True\<rparr>)"
    by (auto simp add: cb)
  have sel1: "selectable (blocks s1 b)" by (simp add: b1)
  have ok1: "''stream'' \<in> set (events (blocks s1 b)) \<longrightarrow> streamable (blocks s1 b)"
    using ok by (simp add: b1)
  from event_trigger_bind [OF f2 ok1, of Events_select a2] obtain s2 h2 where
    r2: "event_trigger Events_select s1 (Some b) f2 a2 = Inr (s2, h2)"
    and b2: "blocks s2 = (blocks s1)(b := (blocks s1 b)\<lparr>selectable := True\<rparr>)"
    by (auto simp add: cb)
  have same: "blocks s2 = blocks s1" unfolding b2 by (rule ext) (simp add: b1)
  have sel2: "selectable (blocks s2 b)" using same sel1 by simp
  from r1 sel1 r2 sel2 same show ?thesis by blast
qed

theorem select_sets_selectable_witness:
  "\<not> selectable (blocks example_state 0)
   \<and> (\<exists>s1 h1 s2 h2.
           event_trigger Events_select example_state (Some 0) (FnCallable (UserFn 0)) default_args
             = Inr (s1, h1)
         \<and> selectable (blocks s1 0)
         \<and> event_trigger Events_select s1 (Some 0) (FnCallable (UserFn 1)) default_args
             = Inr (s2, h2)
         \<and> selectable (blocks s2 0)
         \<and> blocks s2 = blocks s1)"
proof -
  have ok: "''stream'' \<in> set (events (blocks example_state 0)) \<longrightarrow> streamable (blocks example_state 0)"
    by (simp add: example_state_def radio_block_def)
  have f1: "FnCallable (UserFn 0) \<noteq> FnStr ''decorator''" by simp
  have f2: "FnCallable (UserFn 1) \<noteq> FnStr ''decorator''" by simp
  have "\<not> selectable (blocks example_state 0)" by (simp add: example_state_def radio_block_def)
  with select_sets_selectable [OF ok f1 f2, of default_args default_args] show ?thesis by blast
qed

subsection \<open>Cancellation\<close>






subsection \<open>The decorator form\<close>

lemma Wraps_neq: "Wraps f \<noteq> f"
  by (induction f) auto

text \<open>
  C5, as the code has it. Called with the literal \<open>"decorator"\<close>, the binder registers
  nothing and returns a handle. Applying that handle to a function \<open>func\<close> calls the binder
  again with \<open>func\<close> as the callback and every other argument as it was, and returns a new
  function object wrapping \<open>func\<close>: it is not \<open>func\<close> itself, and calling it gives what
  calling \<open>func\<close> gives.
\<close>

theorem decorator_registers_and_wraps:
  "\<exists>h. event_trigger l s blk (FnStr ''decorator'') a = Inr (s, h)
     \<and> (\<forall>s' func. apply_decorator h s' func =
           Some (case event_trigger l s' blk (FnCallable func) a of
                   Inl e \<Rightarrow> Inl e
                 | Inr (s'', h') \<Rightarrow> Inr (s'', Wraps func)))
     \<and> (\<forall>func env x. Wraps func \<noteq> func \<and> call env (Wraps func) x = call env func x)"
  by (simp add: event_trigger_decorator apply_decorator_def Dependency_def Wraps_neq)

theorem decorator_registers_and_wraps_witness:
  "\<exists>s'. apply_decorator (snd (projr decorator_bind)) example_state (UserFn 7) =
           Some (Inr (s', Wraps (UserFn 7)))
       \<and> map d_fn (dependencies s') = [FnCallable (UserFn 7)]
       \<and> map d_event_name (dependencies s') = [''select'']
       \<and> selectable (blocks s' 0)"
proof -
  from decorator_registers_and_wraps [of Events_select example_state "Some 0" default_args]
  obtain h where hh:
    "event_trigger Events_select example_state (Some 0) (FnStr ''decorator'') default_args
       = Inr (example_state, h)
     \<and> (\<forall>s' func. apply_decorator h s' func =
           Some (case event_trigger Events_select s' (Some 0) (FnCallable func) default_args of
                   Inl e \<Rightarrow> Inl e
                 | Inr (s'', h') \<Rightarrow> Inr (s'', Wraps func)))
     \<and> (\<forall>func env x. Wraps func \<noteq> func \<and> call env (Wraps func) x = call env func x)" ..
  from hh have r: "decorator_bind = Inr (example_state, h)"
    unfolding decorator_bind_def by (rule conjunct1)
  from hh have w: "apply_decorator h example_state (UserFn 7) =
           Some (case event_trigger Events_select example_state (Some 0) (FnCallable (UserFn 7)) default_args of
                   Inl e \<Rightarrow> Inl e
                 | Inr (s'', h') \<Rightarrow> Inr (s'', Wraps (UserFn 7)))"
    by blast
  have f: "FnCallable (UserFn 7) \<noteq> FnStr ''decorator''" by simp
  have ok: "''stream'' \<in> set (events (blocks example_state 0)) \<longrightarrow> streamable (blocks example_state 0)"
    by (simp add: example_state_def radio_block_def)
  from event_trigger_bind [OF f ok, of Events_select default_args]
  obtain s' h' where b: "event_trigger Events_select example_state (Some 0) (FnCallable (UserFn 7)) default_args = Inr (s', h')"
    and d: "map d_fn (dependencies s') = [FnCallable (UserFn 7)]"
       "map d_event_name (dependencies s') = [''select'']"
    and bl: "selectable (blocks s' 0)"
    by (auto simp add: example_state_def default_args_def bind_call_def Events_select_def
        EventListener_def)
  have "apply_decorator (snd (projr decorator_bind)) example_state (UserFn 7) =
           Some (Inr (s', Wraps (UserFn 7)))"
    by (simp add: r w b)
  with d bl show ?thesis by (intro exI [of _ s'] conjI)
qed

text \<open>
  C5 as stated fails: applying the decorator obtained on the example radio to function 7
  succeeds, and what it returns is not function 7.
\<close>

theorem decorator_returns_wrapper:
  "\<not> isl decorator_bind
   \<and> apply_decorator (snd (projr decorator_bind)) example_state (UserFn 7) \<noteq> None
   \<and> \<not> isl (the (apply_decorator (snd (projr decorator_bind)) example_state (UserFn 7)))
   \<and> snd (projr (the (apply_decorator (snd (projr decorator_bind)) example_state (UserFn 7))))
       \<noteq> UserFn 7"
proof -
  have r: "decorator_bind =
     Inr (example_state, Dependency None None None
               (WrapperFn (\<lambda>s' func.
                  case event_trigger Events_select s' (Some 0) (FnCallable func) default_args of
                    Inl e \<Rightarrow> Inl e
                  | Inr (s'', _) \<Rightarrow> Inr (s'', Wraps func))))"
    unfolding decorator_bind_def by (rule event_trigger_decorator)
  have f: "FnCallable (UserFn 7) \<noteq> FnStr ''decorator''" by simp
  have ok: "''stream'' \<in> set (events (blocks example_state 0)) \<longrightarrow> streamable (blocks example_state 0)"
    by (simp add: example_state_def radio_block_def)
  from event_trigger_bind [OF f ok, of Events_select default_args]
  obtain s' h' where b: "event_trigger Events_select example_state (Some 0) (FnCallable (UserFn 7)) default_args = Inr (s', h')"
    by blast
  show ?thesis by (simp add: r apply_decorator_def Dependency_def b)
qed

end
